theory Spec2Isabelle
  imports Main "HOL-Library.Word"
begin

section \<open>Data model (Dreadlock.h)\<close>

text \<open>
  \<^verbatim>\<open>struct LockInfo { uint32_t dreadlock_id; std::string lock_file; int lock_line; }\<close>
\<close>

record LockInfo =
  dreadlock_id :: "32 word"
  lock_file :: string
  lock_line :: int

text \<open>
  \<^verbatim>\<open>using tracking_map_t = std::map<size_t, LockInfo>\<close>. The map is kept as the list of
  its nodes, so that "one node per key" is a property to be proved and not a property of
  the type. A node has its key, the address of its mapped value (the source takes
  \<^verbatim>\<open>&tracking[mtx_key]\<close> and keeps that pointer while other threads erase nodes) and the
  mapped value. The iteration order of the map is never observed by the program.
\<close>

record map_node =
  node_key :: nat
  node_addr :: nat
  node_val :: LockInfo

type_synonym tracking_map_t = "map_node list"

text \<open>
  The compile-time constants of Dreadlock.h and the macros \<^verbatim>\<open>DREADLOCK_VERBOSE\<close> and
  \<^verbatim>\<open>NDEBUG\<close>, as a record: several properties are stated for every value of them.
  \<^verbatim>\<open>NDEBUG\<close> is independent of \<^verbatim>\<open>ENABLE_DREADLOCK\<close>; when it is defined, every
  \<^verbatim>\<open>assert\<close> of Dreadlock.cpp expands to nothing.
\<close>

record config =
  AssertOnDeadlock :: bool
  PerformanceTimeout :: int
  DeadlockTimeout :: int
  ShortModuleNames :: bool
  DREADLOCK_VERBOSE :: bool
  NDEBUG :: bool

definition header_config :: config where
  "header_config =
     \<lparr>AssertOnDeadlock = True, PerformanceTimeout = 1000, DeadlockTimeout = 5000,
      ShortModuleNames = True, DREADLOCK_VERBOSE = False, NDEBUG = False\<rparr>"

text \<open>
  The data members of one \<^verbatim>\<open>Dreadlock\<close> instance. The reference \<^verbatim>\<open>mtx\<close> and
  \<^verbatim>\<open>mtx_key\<close> (the address of the mutex) are one field: a mutex is its address. The
  member \<^verbatim>\<open>id\<close> is named \<open>id_name\<close>.
\<close>

record Dreadlock =
  this_dreadlock :: "32 word"
  id_name :: string
  mtx_key :: nat
  destruct_file :: string
  destruct_line :: int

text \<open>
  The static members (\<^verbatim>\<open>next_id\<close>, \<^verbatim>\<open>tracking\<close>), the real mutexes (\<open>locked\<close> is the set
  of addresses of the \<^verbatim>\<open>std::mutex\<close> objects that are locked now) and the allocator of map
  nodes (\<open>next_node\<close>: an address is never handed out twice, so a pointer to an erased
  node is recognised as dangling).
\<close>

record world =
  tracking :: tracking_map_t
  locked :: "nat set"
  next_id :: "32 word"
  next_node :: nat

definition init_world :: world where
  "init_world = \<lparr>tracking = [], locked = {}, next_id = 0, next_node = 0\<rparr>"

text \<open>The lines written to \<^verbatim>\<open>std::cout\<close>, one constructor per message.\<close>

datatype event =
    Locking string string int
  | IllegalLock string string int string int
  | Attempting string string int string int
  | PerformanceWarning string string int int "(string \<times> int) option"
  | DeadlockDetected string string int string int
  | Unlocking string string int string int
  | UnlockUnowned string string int
  | IllegalUnlock string "32 word" string int "32 word" string int

text \<open>
  How a call ends: it returns, an \<^verbatim>\<open>assert\<close> fails (only in a build without
  \<^verbatim>\<open>NDEBUG\<close>), the behaviour is undefined, or the observed schedule ends with the call
  still inside its wait loop.
\<close>

datatype undefined_behaviour = NullDeref | DanglingDeref | BackOfEmpty | UnlockNotLocked

datatype outcome = Returned | AssertFailed | Undefined undefined_behaviour | Waiting

section \<open>The operations of std::map that the program uses\<close>

definition find_node :: "nat \<Rightarrow> tracking_map_t \<Rightarrow> map_node option" where
  "find_node k t = List.find (\<lambda>n. node_key n = k) t"

text \<open>\<^verbatim>\<open>emplace\<close> inserts nothing when the key is present.\<close>

definition emplace :: "nat \<Rightarrow> nat \<Rightarrow> LockInfo \<Rightarrow> tracking_map_t \<Rightarrow> tracking_map_t" where
  "emplace k a v t =
     (if find_node k t = None then t @ [\<lparr>node_key = k, node_addr = a, node_val = v\<rparr>] else t)"

definition erase :: "nat \<Rightarrow> tracking_map_t \<Rightarrow> tracking_map_t" where
  "erase k t = filter (\<lambda>n. node_key n \<noteq> k) t"

text \<open>Reading through a pointer to a mapped value: \<open>None\<close> when the node is gone.\<close>

definition deref :: "nat \<Rightarrow> tracking_map_t \<Rightarrow> LockInfo option" where
  "deref p t = map_option node_val (List.find (\<lambda>n. node_addr n = p) t)"

section \<open>get_module_name\<close>

text \<open>
  \<^verbatim>\<open>std::sregex_token_iterator it{path.begin(), path.end(), regex, -1}\<close> with the regex
  \<^verbatim>\<open>[\\/]+\<close>, as ISO C++ [re.tokiter] defines it: the matches are the maximal runs of
  separators; the tokens are the text before each match and, after the last match, the
  rest when it is not empty; when there is no match at all the constructor yields the whole
  range as the one token, also when the range is empty.
\<close>

definition is_sep :: "char \<Rightarrow> bool" where
  "is_sep c = (c = CHR ''/'' \<or> c = CHR 0x5C)"

fun in_token :: "string \<Rightarrow> string \<Rightarrow> string list"
  and in_seps :: "string \<Rightarrow> string list" where
  "in_token cur [] = [cur]"
| "in_token cur (c # cs) = (if is_sep c then cur # in_seps cs else in_token (cur @ [c]) cs)"
| "in_seps [] = []"
| "in_seps (c # cs) = (if is_sep c then in_seps cs else in_token [c] cs)"

definition sregex_tokens :: "string \<Rightarrow> string list" where
  "sregex_tokens path = in_token [] path"

text \<open>\<^verbatim>\<open>items.back()\<close> of an empty vector is undefined: \<open>None\<close>.\<close>

definition get_module_name :: "string \<Rightarrow> string option" where
  "get_module_name path =
     (let items = sregex_tokens path in if items = [] then None else Some (last items))"

section \<open>The real mutex and the registry\<close>

text \<open>\<^verbatim>\<open>mtx.try_lock()\<close>: locks the mutex and returns true when it is free.\<close>

definition try_lock :: "nat \<Rightarrow> world \<Rightarrow> bool \<times> world" where
  "try_lock m w = (if m \<in> locked w then (False, w) else (True, w\<lparr>locked := insert m (locked w)\<rparr>))"

text \<open>\<^verbatim>\<open>tracking.emplace(mtx_key, LockInfo(this_dreadlock, module, line))\<close>\<close>

definition tracking_emplace :: "Dreadlock \<Rightarrow> string \<Rightarrow> int \<Rightarrow> world \<Rightarrow> world" where
  "tracking_emplace h module line w =
     w\<lparr>tracking := emplace (mtx_key h) (next_node w)
          \<lparr>dreadlock_id = this_dreadlock h, lock_file = module, lock_line = line\<rparr> (tracking w),
       next_node := Suc (next_node w)\<rparr>"

text \<open>
  \<^verbatim>\<open>is_locked && tracking[mtx_key].dreadlock_id == this_dreadlock\<close>; the \<^verbatim>\<open>&&\<close> keeps
  \<^verbatim>\<open>operator[]\<close> from inserting a node.
\<close>

definition locked_by_me :: "Dreadlock \<Rightarrow> world \<Rightarrow> bool" where
  "locked_by_me h w =
     (case find_node (mtx_key h) (tracking w) of
        None \<Rightarrow> False
      | Some n \<Rightarrow> dreadlock_id (node_val n) = this_dreadlock h)"

text \<open>\<^verbatim>\<open>auto module{file}; if (ShortModuleNames) module = get_module_name(file);\<close>\<close>

definition module_of :: "config \<Rightarrow> string \<Rightarrow> string option" where
  "module_of cfg file = (if ShortModuleNames cfg then get_module_name file else Some file)"

section \<open>unlock\<close>

text \<open>
  The whole body runs under \<^verbatim>\<open>tracking_mutex\<close>, so it is one step. \<^verbatim>\<open>mtx.unlock()\<close> of a
  mutex that is not locked is undefined in C++; the model says so. After the report of an
  unlock by a handle that is not the holder comes \<^verbatim>\<open>assert(false)\<close> (line 334): with
  \<^verbatim>\<open>NDEBUG\<close> the call goes on to the end of the function and returns.
\<close>

definition unlock :: "config \<Rightarrow> Dreadlock \<Rightarrow> string \<Rightarrow> int \<Rightarrow> world \<Rightarrow> outcome \<times> event list \<times> world" where
  "unlock cfg h file line w =
     (case module_of cfg file of
        None \<Rightarrow> (Undefined BackOfEmpty, [], w)
      | Some module \<Rightarrow>
          (case find_node (mtx_key h) (tracking w) of
             None \<Rightarrow>
               (if NDEBUG cfg then Returned else AssertFailed,
                [UnlockUnowned (id_name h) module line], w)
           | Some n \<Rightarrow>
               if dreadlock_id (node_val n) = this_dreadlock h then
                 (let ev = (if DREADLOCK_VERBOSE cfg
                            then [Unlocking (id_name h) module line
                                    (lock_file (node_val n)) (lock_line (node_val n))]
                            else [])
                  in if mtx_key h \<in> locked w
                     then (Returned, ev,
                           w\<lparr>locked := locked w - {mtx_key h},
                             tracking := erase (mtx_key h) (tracking w)\<rparr>)
                     else (Undefined UnlockNotLocked, ev, w))
               else
                 (if NDEBUG cfg then Returned else AssertFailed,
                  [IllegalUnlock (id_name h) (this_dreadlock h) module line
                     (dreadlock_id (node_val n)) (lock_file (node_val n)) (lock_line (node_val n))],
                  w)))"

section \<open>The other threads\<close>

text \<open>
  What another thread can do to the shared state in one step while this thread sleeps or
  is between two critical sections: another handle runs the guarded fragment of
  \<^verbatim>\<open>lock\<close> (\<^verbatim>\<open>if (!is_locked && mtx.try_lock()) tracking.emplace(...)\<close>, lines 108-112 and
  180-187), another handle calls \<^verbatim>\<open>unlock\<close>, or code that does not use the class locks
  the mutex directly or releases a mutex it had locked directly (a locked mutex with no
  node). A spurious failure of \<^verbatim>\<open>try_lock\<close> is seen by the caller as an \<open>OutsideLock\<close>
  before it and an \<open>OutsideUnlock\<close> after it.
\<close>

datatype env_action =
    OtherAcquire Dreadlock string int
  | OtherUnlock Dreadlock string int
  | OutsideLock nat
  | OutsideUnlock nat

definition acquire :: "Dreadlock \<Rightarrow> string \<Rightarrow> int \<Rightarrow> world \<Rightarrow> world" where
  "acquire h module line w =
     (if find_node (mtx_key h) (tracking w) = None
      then (case try_lock (mtx_key h) w of
              (True, w1) \<Rightarrow> tracking_emplace h module line w1
            | (False, w1) \<Rightarrow> w1)
      else w)"

fun env_step :: "config \<Rightarrow> env_action \<Rightarrow> world \<Rightarrow> world" where
  "env_step cfg (OtherAcquire h module line) w = acquire h module line w"
| "env_step cfg (OtherUnlock h file line) w = snd (snd (unlock cfg h file line w))"
| "env_step cfg (OutsideLock m) w = snd (try_lock m w)"
| "env_step cfg (OutsideUnlock m) w =
     (if m \<in> locked w \<and> find_node m (tracking w) = None
      then w\<lparr>locked := locked w - {m}\<rparr> else w)"

definition env_steps :: "config \<Rightarrow> env_action list \<Rightarrow> world \<Rightarrow> world" where
  "env_steps cfg as w = fold (env_step cfg) as w"

text \<open>
  One iteration of the wait loop as the environment shapes it: what the other threads do
  before this thread has \<^verbatim>\<open>tracking_mutex\<close> again, and the value of \<^verbatim>\<open>elapsed\<close> that the
  iteration computes (milliseconds on the steady clock).
\<close>

record tick =
  during_sleep :: "env_action list"
  elapsed :: int

section \<open>lock\<close>

text \<open>
  The \<^verbatim>\<open>for (;;)\<close> of lines 174-228. \<open>Returned\<close> is a \<^verbatim>\<open>break\<close>; \<open>Waiting\<close> says that the
  ticks are used up and the loop is still running. \<open>info\<close> is the pointer taken at entry
  (\<open>None\<close> is \<^verbatim>\<open>nullptr\<close>); the performance warning reads through it after
  \<^verbatim>\<open>if (info)\<close>.
\<close>

fun wait_loop :: "config \<Rightarrow> Dreadlock \<Rightarrow> string \<Rightarrow> int \<Rightarrow> nat option \<Rightarrow> bool \<Rightarrow> tick list \<Rightarrow> world
    \<Rightarrow> outcome \<times> event list \<times> world" where
  "wait_loop cfg h module line info reported_performance [] w = (Waiting, [], w)"
| "wait_loop cfg h module line info reported_performance (t # ts) w =
     (let w1 = env_steps cfg (during_sleep t) w in
      if find_node (mtx_key h) (tracking w1) = None then
        (case try_lock (mtx_key h) w1 of
           (True, w2) \<Rightarrow> (Returned, [], tracking_emplace h module line w2)
         | (False, w2) \<Rightarrow> (Returned, [], w2))
      else if DeadlockTimeout cfg \<le> elapsed t then (Returned, [], w1)
      else if PerformanceTimeout cfg \<noteq> 0 \<and> \<not> reported_performance
              \<and> PerformanceTimeout cfg \<le> elapsed t then
        (case info of
           None \<Rightarrow>
             (case wait_loop cfg h module line info True ts w1 of
                (r, ev, w') \<Rightarrow>
                  (r, PerformanceWarning (id_name h) module line (PerformanceTimeout cfg) None # ev, w'))
         | Some p \<Rightarrow>
             (case deref p (tracking w1) of
                None \<Rightarrow> (Undefined DanglingDeref, [], w1)
              | Some li \<Rightarrow>
                  (case wait_loop cfg h module line info True ts w1 of
                     (r, ev, w') \<Rightarrow>
                       (r, PerformanceWarning (id_name h) module line (PerformanceTimeout cfg)
                             (Some (lock_file li, lock_line li)) # ev, w'))))
      else wait_loop cfg h module line info reported_performance ts w1)"

text \<open>
  Lines 168-255: the loop, then the check under \<^verbatim>\<open>tracking_mutex\<close>. Other threads run
  between the \<^verbatim>\<open>break\<close> and that check (\<open>after_loop\<close>). The deadlock report reads through
  \<open>info\<close> with no test. The last statement is \<^verbatim>\<open>assert(!AssertOnDeadlock)\<close>.
\<close>

definition lock_wait :: "config \<Rightarrow> Dreadlock \<Rightarrow> string \<Rightarrow> int \<Rightarrow> nat option \<Rightarrow> event list
    \<Rightarrow> tick list \<Rightarrow> env_action list \<Rightarrow> world \<Rightarrow> outcome \<times> event list \<times> world" where
  "lock_wait cfg h module line info ev0 ticks after_loop w =
     (case wait_loop cfg h module line info False ticks w of
        (Returned, ev1, w1) \<Rightarrow>
          (let w2 = env_steps cfg after_loop w1 in
           if locked_by_me h w2 then (Returned, ev0 @ ev1, w2)
           else
             (case info of
                None \<Rightarrow> (Undefined NullDeref, ev0 @ ev1, w2)
              | Some p \<Rightarrow>
                  (case deref p (tracking w2) of
                     None \<Rightarrow> (Undefined DanglingDeref, ev0 @ ev1, w2)
                   | Some li \<Rightarrow>
                       (if AssertOnDeadlock cfg \<and> \<not> NDEBUG cfg then AssertFailed else Returned,
                        ev0 @ ev1 @ [DeadlockDetected (id_name h) module line
                                       (lock_file li) (lock_line li)],
                        w2))))
      | (r, ev1, w1) \<Rightarrow> (r, ev0 @ ev1, w1))"

text \<open>
  Lines 100-163, then \<open>lock_wait\<close>. When the node found at entry is this handle's own, the
  illegal-lock message is followed by \<^verbatim>\<open>assert(false)\<close> (line 142) and by nothing else:
  with \<^verbatim>\<open>NDEBUG\<close> the call goes on into the wait loop, with \<open>info\<close> at its own node.
\<close>

definition lock :: "config \<Rightarrow> Dreadlock \<Rightarrow> string \<Rightarrow> int \<Rightarrow> tick list \<Rightarrow> env_action list \<Rightarrow> world
    \<Rightarrow> outcome \<times> event list \<times> world" where
  "lock cfg h file line ticks after_loop w =
     (let verbose = (if DREADLOCK_VERBOSE cfg then [Locking (id_name h) file line] else []) in
      case module_of cfg file of
        None \<Rightarrow> (Undefined BackOfEmpty, verbose, w)
      | Some module \<Rightarrow>
          (case find_node (mtx_key h) (tracking w) of
             None \<Rightarrow>
               (case try_lock (mtx_key h) w of
                  (True, w1) \<Rightarrow> (Returned, verbose, tracking_emplace h module line w1)
                | (False, w1) \<Rightarrow> lock_wait cfg h module line None verbose ticks after_loop w1)
           | Some n \<Rightarrow>
               if dreadlock_id (node_val n) = this_dreadlock h then
                 (if NDEBUG cfg
                  then lock_wait cfg h module line (Some (node_addr n))
                         (verbose @ [IllegalLock (id_name h) module line
                                       (lock_file (node_val n)) (lock_line (node_val n))])
                         ticks after_loop w
                  else
                    (AssertFailed,
                     verbose @ [IllegalLock (id_name h) module line
                                  (lock_file (node_val n)) (lock_line (node_val n))],
                     w))
               else
                 lock_wait cfg h module line (Some (node_addr n))
                   (verbose @ (if DREADLOCK_VERBOSE cfg
                               then [Attempting (id_name h) module line
                                       (lock_file (node_val n)) (lock_line (node_val n))]
                               else []))
                   ticks after_loop w))"

section \<open>Constructor, destruct, destructor\<close>

definition Dreadlock_ctor :: "config \<Rightarrow> nat \<Rightarrow> string \<Rightarrow> string \<Rightarrow> int \<Rightarrow> bool
    \<Rightarrow> env_action list \<Rightarrow> tick list \<Rightarrow> env_action list \<Rightarrow> world
    \<Rightarrow> Dreadlock \<times> outcome \<times> event list \<times> world" where
  "Dreadlock_ctor cfg mtx name file line defer before ticks after_loop w =
     (let h = \<lparr>this_dreadlock = next_id w, id_name = name, mtx_key = mtx,
                destruct_file = [], destruct_line = 0\<rparr>;
          w1 = w\<lparr>next_id := next_id w + 1\<rparr>
      in if \<not> defer
         then (h, lock cfg h file line ticks after_loop (env_steps cfg before w1))
         else (h, Returned, [], w1))"

definition destruct :: "Dreadlock \<Rightarrow> string \<Rightarrow> int \<Rightarrow> Dreadlock" where
  "destruct h file line = h\<lparr>destruct_file := file, destruct_line := line\<rparr>"

text \<open>
  The destructor releases \<^verbatim>\<open>tracking_mutex\<close> before it calls \<^verbatim>\<open>unlock\<close>: other threads
  run in between. \<^verbatim>\<open>__LINE__\<close> is 65 there.
\<close>

definition Dreadlock_dtor :: "config \<Rightarrow> Dreadlock \<Rightarrow> env_action list \<Rightarrow> world
    \<Rightarrow> outcome \<times> event list \<times> world" where
  "Dreadlock_dtor cfg h between w =
     (if locked_by_me h w
      then unlock cfg h
             (if destruct_file h = [] then ''Dreadlock::~Dreadlock()'' else destruct_file h)
             (if destruct_line h \<noteq> 0 then destruct_line h else 65)
             (env_steps cfg between w)
      else (Returned, [], w))"

section \<open>Reachable states\<close>

inductive reachable :: "config \<Rightarrow> world \<Rightarrow> bool" for cfg :: config where
  init: "reachable cfg init_world"
| env: "reachable cfg w \<Longrightarrow> reachable cfg (env_step cfg a w)"
| ctor: "reachable cfg w \<Longrightarrow>
         Dreadlock_ctor cfg mtx name file line defer before ticks after_loop w = (h, r, ev, w')
         \<Longrightarrow> reachable cfg w'"
| lock: "reachable cfg w \<Longrightarrow> lock cfg h file line ticks after_loop w = (r, ev, w')
         \<Longrightarrow> reachable cfg w'"
| unlock: "reachable cfg w \<Longrightarrow> unlock cfg h file line w = (r, ev, w') \<Longrightarrow> reachable cfg w'"
| dtor: "reachable cfg w \<Longrightarrow> Dreadlock_dtor cfg h between w = (r, ev, w') \<Longrightarrow> reachable cfg w'"

section \<open>Predicates used in the properties\<close>

text \<open>Every mutex that has a node in the registry is locked.\<close>

definition registry_consistent :: "world \<Rightarrow> bool" where
  "registry_consistent w = (\<forall>n\<in>set (tracking w). node_key n \<in> locked w)"

fun is_performance_warning :: "event \<Rightarrow> bool" where
  "is_performance_warning (PerformanceWarning i m l t holder) = True"
| "is_performance_warning e = False"

fun is_deadlock_report :: "event \<Rightarrow> bool" where
  "is_deadlock_report (DeadlockDetected i m l f n) = True"
| "is_deadlock_report e = False"



section \<open>Example inputs\<close>

text \<open>Two handles on the mutex at address 7, and states of the process.\<close>

definition h0 :: Dreadlock where
  "h0 = \<lparr>this_dreadlock = 0, id_name = ''mtx'', mtx_key = 7, destruct_file = [], destruct_line = 0\<rparr>"

definition h1 :: Dreadlock where
  "h1 = \<lparr>this_dreadlock = 1, id_name = ''mtx'', mtx_key = 7, destruct_file = [], destruct_line = 0\<rparr>"

definition held_by_h1 :: world where
  "held_by_h1 =
     \<lparr>tracking = [\<lparr>node_key = 7, node_addr = 0,
                    node_val = \<lparr>dreadlock_id = 1, lock_file = ''a.cpp'', lock_line = 10\<rparr>\<rparr>],
      locked = {7}, next_id = 0, next_node = 1\<rparr>"

definition held_outside :: world where
  "held_outside = \<lparr>tracking = [], locked = {7}, next_id = 0, next_node = 0\<rparr>"

definition no_assert_config :: config where
  "no_assert_config = header_config\<lparr>AssertOnDeadlock := False\<rparr>"

definition ndebug_config :: config where
  "ndebug_config = header_config\<lparr>NDEBUG := True\<rparr>"

definition verbose_config :: config where
  "verbose_config = header_config\<lparr>DREADLOCK_VERBOSE := True\<rparr>"

section \<open>Facts about get_module_name\<close>

lemma in_token_not_Nil: "in_token cur s \<noteq> []"
  by (induction s arbitrary: cur) auto

lemma in_token_no_sep: "\<forall>c\<in>set f. \<not> is_sep c \<Longrightarrow> in_token cur f = [cur @ f]"
  by (induction f arbitrary: cur) auto

lemma in_seps_no_sep: "f \<noteq> [] \<Longrightarrow> \<forall>c\<in>set f. \<not> is_sep c \<Longrightarrow> in_seps f = [f]"
  by (cases f) (auto simp: in_token_no_sep)

lemma in_seps_not_Nil: "\<exists>c\<in>set xs. \<not> is_sep c \<Longrightarrow> in_seps xs \<noteq> []"
  by (induction xs) (auto simp: in_token_not_Nil)

lemma last_segment:
  assumes "is_sep s" "f \<noteq> []" "\<forall>c\<in>set f. \<not> is_sep c"
  shows "last (in_token cur (d @ s # f)) = f \<and> last (in_seps (d @ s # f)) = f"
proof (induction d arbitrary: cur)
  case Nil
  show ?case using assms by (simp add: in_seps_no_sep)
next
  case (Cons c d)
  have "\<exists>x\<in>set (d @ s # f). \<not> is_sep x"
    using assms by (cases f) auto
  then have ne: "in_seps (d @ s # f) \<noteq> []"
    by (rule in_seps_not_Nil)
  show ?case using Cons.IH ne by (simp add: in_token_not_Nil)
qed

section \<open>Facts about the registry operations\<close>

lemma find_node_None: "find_node k t = None \<longleftrightarrow> k \<notin> node_key ` set t"
  by (auto simp: find_node_def find_None_iff)

lemma find_node_SomeD: "find_node k t = Some n \<Longrightarrow> n \<in> set t \<and> node_key n = k"
  by (auto simp: find_node_def find_Some_iff)

lemma find_node_append:
  "find_node k (t @ u) = (case find_node k t of None \<Rightarrow> find_node k u | Some n \<Rightarrow> Some n)"
  by (induction t) (auto simp: find_node_def)

lemma find_node_emplace:
  "find_node k t = None \<Longrightarrow>
   find_node k (emplace k a v t) = Some \<lparr>node_key = k, node_addr = a, node_val = v\<rparr>"
  by (simp add: emplace_def find_node_append) (simp add: find_node_def)

lemma find_node_erase: "find_node k (erase k t) = None"
  by (auto simp: find_node_None erase_def)

lemma distinct_emplace:
  "distinct (map node_key t) \<Longrightarrow> distinct (map node_key (emplace k a v t))"
  by (auto simp: emplace_def find_node_None)

lemma distinct_erase: "distinct (map node_key t) \<Longrightarrow> distinct (map node_key (erase k t))"
  by (simp add: erase_def distinct_map_filter)

lemma env_steps_Nil: "env_steps cfg [] w = w"
  by (simp add: env_steps_def)

lemma env_steps_Cons: "env_steps cfg (a # as) w = env_steps cfg as (env_step cfg a w)"
  by (simp add: env_steps_def)

lemma env_steps_append: "env_steps cfg (as @ bs) w = env_steps cfg bs (env_steps cfg as w)"
  by (simp add: env_steps_def)

lemma env_steps_preserves:
  assumes step: "\<And>a w. P w \<Longrightarrow> P (env_step cfg a w)"
  shows "P w \<Longrightarrow> P (env_steps cfg as w)"
  by (induction as arbitrary: w) (simp_all add: env_steps_Nil env_steps_Cons step)

lemma acquire_inline:
  "find_node (mtx_key h) (tracking w) = None \<Longrightarrow> try_lock (mtx_key h) w = (True, w1) \<Longrightarrow>
   tracking_emplace h module line w1 = env_step cfg (OtherAcquire h module line) w"
  by (simp add: acquire_def)

lemma try_lock_False: "try_lock m w = (False, w1) \<Longrightarrow> w1 = w \<and> m \<in> locked w"
  by (auto simp: try_lock_def split: if_splits)

lemma try_lock_True:
  "try_lock m w = (True, w1) \<Longrightarrow> w1 = w\<lparr>locked := insert m (locked w)\<rparr> \<and> m \<notin> locked w"
  by (auto simp: try_lock_def split: if_splits)

lemma wait_loop_preserves:
  assumes step: "\<And>a w. P w \<Longrightarrow> P (env_step cfg a w)"
  shows "P w \<Longrightarrow> P (snd (snd (wait_loop cfg h module line info rp ticks w)))"
proof (induction ticks arbitrary: w rp)
  case Nil
  then show ?case by simp
next
  case (Cons t ts)
  define w1 where "w1 = env_steps cfg (during_sleep t) w"
  have P1: "P w1"
    unfolding w1_def using step Cons.prems by (rule env_steps_preserves)
  have acq: "P (tracking_emplace h module line w2)"
    if "find_node (mtx_key h) (tracking w1) = None" "try_lock (mtx_key h) w1 = (True, w2)" for w2
    using acquire_inline [OF that, of module line cfg]
      step [OF P1, of "OtherAcquire h module line"] by simp
  have rec: "P (snd (snd (wait_loop cfg h module line info rp' ts w1)))" for rp'
    using Cons.IH [OF P1] .
  show ?case
    using P1 acq rec [of True] rec [of rp]
    by (auto simp: Let_def w1_def [symmetric] split: prod.splits bool.splits option.splits
             dest: try_lock_False)
qed

lemma unlock_world: "snd (snd (unlock cfg h file line w)) = env_step cfg (OtherUnlock h file line) w"
  by simp

lemma lock_wait_preserves:
  assumes step: "\<And>a w. P w \<Longrightarrow> P (env_step cfg a w)"
  shows "P w \<Longrightarrow> P (snd (snd (lock_wait cfg h module line info ev0 ticks after_loop w)))"
proof -
  assume "P w"
  obtain r ev1 w1 where wl: "wait_loop cfg h module line info False ticks w = (r, ev1, w1)"
    by (cases "wait_loop cfg h module line info False ticks w") auto
  from \<open>P w\<close> have "P (snd (snd (wait_loop cfg h module line info False ticks w)))"
    using step by (rule wait_loop_preserves [rotated])
  then have 1: "P w1" by (simp add: wl)
  then have 2: "P (env_steps cfg after_loop w1)"
    using step by (rule env_steps_preserves [rotated])
  show ?thesis
    unfolding lock_wait_def wl using 1 2
    by (cases r) (simp_all add: Let_def split: option.splits)
qed

lemma lock_preserves:
  assumes step: "\<And>a w. P w \<Longrightarrow> P (env_step cfg a w)"
  shows "P w \<Longrightarrow> P (snd (snd (lock cfg h file line ticks after_loop w)))"
proof -
  assume P: "P w"
  have lw: "P (snd (snd (lock_wait cfg h module line' info ev0 ticks after_loop w)))"
    for module line' info ev0
    using step P by (rule lock_wait_preserves)
  show ?thesis
  proof (cases "module_of cfg file")
    case None
    then show ?thesis using P by (simp add: lock_def Let_def)
  next
    case (Some module)
    show ?thesis
    proof (cases "find_node (mtx_key h) (tracking w)")
      case (Some n)
      then show ?thesis
        using P lw \<open>module_of cfg file = Some module\<close> by (simp add: lock_def Let_def)
    next
      case None
      obtain b w1 where tl: "try_lock (mtx_key h) w = (b, w1)"
        by (cases "try_lock (mtx_key h) w") auto
      show ?thesis
      proof (cases b)
        case True
        with tl have tl': "try_lock (mtx_key h) w = (True, w1)" by simp
        have "P (tracking_emplace h module line w1)"
          using acquire_inline [OF None tl', of module line cfg]
            step [OF P, of "OtherAcquire h module line"] by simp
        then show ?thesis
          using None tl True \<open>module_of cfg file = Some module\<close> by (simp add: lock_def Let_def)
      next
        case False
        with tl have "w1 = w" by (auto dest: try_lock_False)
        then show ?thesis
          using None tl False lw \<open>module_of cfg file = Some module\<close>
          by (simp add: lock_def Let_def)
      qed
    qed
  qed
qed

lemma unlock_preserves:
  assumes step: "\<And>a w. P w \<Longrightarrow> P (env_step cfg a w)"
  shows "P w \<Longrightarrow> P (snd (snd (unlock cfg h file line w)))"
  unfolding unlock_world by (rule step)

lemma dtor_preserves:
  assumes step: "\<And>a w. P w \<Longrightarrow> P (env_step cfg a w)"
  shows "P w \<Longrightarrow> P (snd (snd (Dreadlock_dtor cfg h between w)))"
proof -
  assume P: "P w"
  then have "P (env_steps cfg between w)"
    using step by (rule env_steps_preserves [rotated])
  then have "P (snd (snd (unlock cfg h f l (env_steps cfg between w))))" for f l
    using step by (rule unlock_preserves [rotated])
  with P show ?thesis by (simp add: Dreadlock_dtor_def del: env_step.simps)
qed

lemma ctor_preserves:
  assumes step: "\<And>a w. P w \<Longrightarrow> P (env_step cfg a w)"
    and nid: "\<And>w i. P w \<Longrightarrow> P (w\<lparr>next_id := i\<rparr>)"
  shows "P w \<Longrightarrow>
    P (snd (snd (snd (Dreadlock_ctor cfg mtx name file line defer before ticks after_loop w))))"
proof -
  assume "P w"
  then have 1: "P (w\<lparr>next_id := next_id w + 1\<rparr>)" by (rule nid)
  then have "P (env_steps cfg before (w\<lparr>next_id := next_id w + 1\<rparr>))"
    using step by (rule env_steps_preserves [rotated])
  then have "P (snd (snd (lock cfg h file line ticks after_loop
               (env_steps cfg before (w\<lparr>next_id := next_id w + 1\<rparr>)))))" for h
    using step by (rule lock_preserves [rotated])
  with 1 show ?thesis by (simp add: Dreadlock_ctor_def Let_def)
qed

lemma reachable_invariant:
  assumes init: "P init_world"
    and step: "\<And>a w. P w \<Longrightarrow> P (env_step cfg a w)"
    and nid: "\<And>w i. P w \<Longrightarrow> P (w\<lparr>next_id := i\<rparr>)"
  shows "reachable cfg w \<Longrightarrow> P w"
proof (induction rule: reachable.induct)
  case init
  show ?case by (rule assms(1))
next
  case (env w a)
  then show ?case by (simp add: step)
next
  case (ctor w mtx name f l dfr before ticks after_loop h r ev w')
  from ctor.IH have
    "P (snd (snd (snd (Dreadlock_ctor cfg mtx name f l dfr before ticks after_loop w))))"
    using step nid by (rule ctor_preserves [rotated 2])
  with ctor.hyps show ?case by simp
next
  case (lock w h f l ticks after_loop r ev w')
  from lock.IH have "P (snd (snd (lock cfg h f l ticks after_loop w)))"
    using step by (rule lock_preserves [rotated])
  with lock.hyps show ?case by simp
next
  case (unlock w h f l r ev w')
  from unlock.IH have "P (snd (snd (unlock cfg h f l w)))"
    using step by (rule unlock_preserves [rotated])
  with unlock.hyps show ?case by simp
next
  case (dtor w h between r ev w')
  from dtor.IH have "P (snd (snd (Dreadlock_dtor cfg h between w)))"
    using step by (rule dtor_preserves [rotated])
  with dtor.hyps show ?case by simp
qed


lemma env_step_distinct:
  "distinct (map node_key (tracking w)) \<Longrightarrow> distinct (map node_key (tracking (env_step cfg a w)))"
  by (cases a)
     (auto simp: acquire_def try_lock_def tracking_emplace_def unlock_def Let_def
                 distinct_emplace distinct_erase
           split: option.splits)

lemma env_step_consistent:
  "registry_consistent w \<Longrightarrow> registry_consistent (env_step cfg a w)"
  by (cases a)
     (auto simp: registry_consistent_def acquire_def try_lock_def tracking_emplace_def unlock_def
                 Let_def emplace_def erase_def find_node_None
           split: option.splits)


lemma reachable_consistent: "reachable cfg w \<Longrightarrow> registry_consistent w"
  by (rule reachable_invariant [where P = registry_consistent])
     (simp_all add: env_step_consistent, simp_all add: registry_consistent_def init_world_def)



lemma module_of_defined: "\<exists>module. module_of cfg file = Some module"
  by (simp add: module_of_def get_module_name_def sregex_tokens_def in_token_not_Nil)

lemma held_by_h1_reachable: "reachable cfg held_by_h1"
proof -
  have "env_step cfg (OtherAcquire h1 ''a.cpp'' 10) init_world = held_by_h1"
    by (simp add: acquire_def find_node_def try_lock_def tracking_emplace_def emplace_def
        init_world_def h1_def held_by_h1_def)
  then show ?thesis
    using reachable.env [OF reachable.init, of cfg "OtherAcquire h1 ''a.cpp'' 10"] by simp
qed

lemma held_outside_reachable: "reachable cfg held_outside"
proof -
  have "env_step cfg (OutsideLock 7) init_world = held_outside"
    by (simp add: try_lock_def init_world_def held_outside_def)
  then show ?thesis
    using reachable.env [OF reachable.init, of cfg "OutsideLock 7"] by simp
qed

text \<open>The state that \<open>lock\<close> leaves is reached from the state at entry by atomic steps.\<close>

lemma lock_world_steps: "\<exists>as. snd (snd (lock cfg h file line ticks after_loop w)) = env_steps cfg as w"
proof (rule lock_preserves [where P = "\<lambda>w'. \<exists>as. w' = env_steps cfg as w"])
  fix a w'
  assume "\<exists>as. w' = env_steps cfg as w"
  then obtain as where "w' = env_steps cfg as w" by blast
  then have "env_step cfg a w' = env_steps cfg (as @ [a]) w"
    by (simp add: env_steps_append env_steps_Cons env_steps_Nil)
  then show "\<exists>as. env_step cfg a w' = env_steps cfg as w" by blast
next
  have "w = env_steps cfg [] w" by (simp add: env_steps_Nil)
  then show "\<exists>as. w = env_steps cfg as w" by blast
qed

section \<open>C1: one record per mutex\<close>



section \<open>C10: get_module_name on the empty path\<close>

text \<open>
  C10, as amended. \<open>get_module_name\<close> is defined for every string, because the token
  vector is never empty: for the empty string it holds the one empty token, and the result
  is the empty string. A path without a separator comes back whole, a path that ends in a
  segment after a separator gives that segment, and \<open>unlock\<close> called with the defaulted
  empty file never reaches \<^verbatim>\<open>back()\<close> of an empty vector.
\<close>

theorem get_module_name_total:
  "get_module_name path \<noteq> None
   \<and> sregex_tokens [] = [[]]
   \<and> get_module_name [] = Some []
   \<and> ((\<forall>c\<in>set f. \<not> is_sep c) \<longrightarrow> get_module_name f = Some f)
   \<and> (is_sep s \<and> f \<noteq> [] \<and> (\<forall>c\<in>set f. \<not> is_sep c) \<longrightarrow> get_module_name (d @ s # f) = Some f)
   \<and> fst (unlock cfg h [] line w) \<noteq> Undefined BackOfEmpty"
proof -
  have 1: "get_module_name path \<noteq> None"
    by (simp add: get_module_name_def sregex_tokens_def in_token_not_Nil)
  have 2: "sregex_tokens [] = [[]]" "get_module_name [] = Some []"
    by (simp_all add: get_module_name_def sregex_tokens_def)
  have 3: "get_module_name f = Some f" if "\<forall>c\<in>set f. \<not> is_sep c"
    using that by (simp add: get_module_name_def sregex_tokens_def in_token_no_sep)
  have 4: "get_module_name (d @ s # f) = Some f"
    if "is_sep s" "f \<noteq> []" "\<forall>c\<in>set f. \<not> is_sep c"
    using last_segment [OF that, of "[]" d]
    by (simp add: get_module_name_def sregex_tokens_def in_token_not_Nil)
  obtain module where m: "module_of cfg [] = Some module"
    using module_of_defined by blast
  have 5: "fst (unlock cfg h [] line w) \<noteq> Undefined BackOfEmpty"
    by (simp add: unlock_def m Let_def split: option.splits)
  show ?thesis using 1 2 3 4 5 by blast
qed

text \<open>C10 as amended, at two concrete paths.\<close>

theorem get_module_name_total_witness:
  "is_sep CHR ''/'' \<and> get_module_name ''src/lib/Dreadlock.cpp'' = Some ''Dreadlock.cpp''
   \<and> get_module_name ''main.cpp'' = Some ''main.cpp''"
  using get_module_name_total [of "''main.cpp''" "''Dreadlock.cpp''" "CHR ''/''" "''src/lib''"]
    get_module_name_total [of "''main.cpp''" "''main.cpp''"]
  by (simp add: is_sep_def)

text \<open>
  C10 as the specification states it fails at the empty string: the token vector is not empty, and
  \<open>unlock\<close> with the defaulted location and short module names reports the unowned unlock.
\<close>

theorem get_module_name_empty_path:
  "sregex_tokens [] = [[]] \<and> get_module_name [] = Some []
   \<and> unlock header_config h0 [] (-1) init_world
       = (AssertFailed, [UnlockUnowned ''mtx'' [] (-1)], init_world)"
  by (simp add: get_module_name_def sregex_tokens_def unlock_def module_of_def header_config_def
      init_world_def find_node_def h0_def)

section \<open>C4: illegal re-lock\<close>

lemma lock_wait_events_prefix:
  "\<exists>ev. fst (snd (lock_wait cfg h module line info evs ticks after_loop w)) = evs @ ev"
proof -
  obtain r ev1 w1 where wl: "wait_loop cfg h module line info False ticks w = (r, ev1, w1)"
    by (cases "wait_loop cfg h module line info False ticks w") auto
  show ?thesis
    unfolding lock_wait_def wl
    by (cases r) (auto simp: Let_def split: option.splits if_splits)
qed

lemma lock_distinct:
  "distinct (map node_key (tracking w)) \<Longrightarrow>
   distinct (map node_key (tracking (snd (snd (lock cfg h file line ticks after_loop w)))))"
  by (rule lock_preserves [where P = "\<lambda>w. distinct (map node_key (tracking w))"])
     (rule env_step_distinct)

text \<open>
  C4, as amended. When the registry records this handle as the holder of its mutex,
  \<open>lock\<close> prints the illegal-lock message before anything else it prints for the mutex,
  and the registry still has one node per key when the call is over or still waiting. In a
  build with assertions (\<^verbatim>\<open>NDEBUG\<close> not defined) the call then fails its assertion: the
  shared state is returned as it was (no second node, the real mutex not touched), and the
  result does not depend on the ticks, so the wait loop is not entered. In a build with
  \<^verbatim>\<open>NDEBUG\<close> the call goes on into the wait loop, with \<open>info\<close> at the handle's own node.
\<close>

theorem lock_illegal_reentry:
  assumes "find_node (mtx_key h) (tracking w) = Some n"
    and "dreadlock_id (node_val n) = this_dreadlock h"
  shows "\<exists>module report. module_of cfg file = Some module
    \<and> report = (if DREADLOCK_VERBOSE cfg then [Locking (id_name h) file line] else [])
         @ [IllegalLock (id_name h) module line (lock_file (node_val n)) (lock_line (node_val n))]
    \<and> (\<exists>ev. fst (snd (lock cfg h file line ticks after_loop w)) = report @ ev)
    \<and> (\<not> NDEBUG cfg \<longrightarrow> lock cfg h file line ticks after_loop w = (AssertFailed, report, w))
    \<and> (NDEBUG cfg \<longrightarrow>
         lock cfg h file line ticks after_loop w
           = lock_wait cfg h module line (Some (node_addr n)) report ticks after_loop w)
    \<and> (distinct (map node_key (tracking w)) \<longrightarrow>
         distinct (map node_key (tracking (snd (snd (lock cfg h file line ticks after_loop w))))))"
proof -
  obtain module where m: "module_of cfg file = Some module"
    using module_of_defined by blast
  define report where "report =
    (if DREADLOCK_VERBOSE cfg then [Locking (id_name h) file line] else [])
      @ [IllegalLock (id_name h) module line (lock_file (node_val n)) (lock_line (node_val n))]"
  have l: "lock cfg h file line ticks after_loop w =
      (if NDEBUG cfg
       then lock_wait cfg h module line (Some (node_addr n)) report ticks after_loop w
       else (AssertFailed, report, w))"
    using assms by (simp add: lock_def m Let_def report_def)
  have p: "\<exists>ev. fst (snd (lock cfg h file line ticks after_loop w)) = report @ ev"
    unfolding l using lock_wait_events_prefix [of cfg h module line "Some (node_addr n)" report]
    by simp
  have d: "distinct (map node_key (tracking w)) \<longrightarrow>
         distinct (map node_key (tracking (snd (snd (lock cfg h file line ticks after_loop w)))))"
    using lock_distinct by blast
  show ?thesis
    using m report_def p l d by (intro exI [of _ module] exI [of _ report]) simp
qed

text \<open>
  C4 as amended, at a concrete state: the handle \<open>h1\<close> locks again what it holds, in the
  build of the header and in a build with \<^verbatim>\<open>NDEBUG\<close>.
\<close>

theorem lock_illegal_reentry_witness:
  "find_node (mtx_key h1) (tracking held_by_h1)
     = Some \<lparr>node_key = 7, node_addr = 0,
             node_val = \<lparr>dreadlock_id = 1, lock_file = ''a.cpp'', lock_line = 10\<rparr>\<rparr>
   \<and> \<not> NDEBUG header_config
   \<and> lock header_config h1 ''src/b.cpp'' 20 [] [] held_by_h1
       = (AssertFailed, [IllegalLock ''mtx'' ''b.cpp'' 20 ''a.cpp'' 10], held_by_h1)
   \<and> NDEBUG ndebug_config
   \<and> lock ndebug_config h1 ''src/b.cpp'' 20 [] [] held_by_h1
       = lock_wait ndebug_config h1 ''b.cpp'' 20 (Some 0)
           [IllegalLock ''mtx'' ''b.cpp'' 20 ''a.cpp'' 10] [] [] held_by_h1"
proof -
  have f: "find_node (mtx_key h1) (tracking held_by_h1)
     = Some \<lparr>node_key = 7, node_addr = 0,
             node_val = \<lparr>dreadlock_id = 1, lock_file = ''a.cpp'', lock_line = 10\<rparr>\<rparr>"
    by (simp add: find_node_def h1_def held_by_h1_def)
  have m: "module_of header_config ''src/b.cpp'' = Some ''b.cpp''"
    "module_of ndebug_config ''src/b.cpp'' = Some ''b.cpp''"
    by (simp_all add: module_of_def header_config_def ndebug_config_def get_module_name_def
        sregex_tokens_def is_sep_def)
  have c: "\<not> NDEBUG header_config" "NDEBUG ndebug_config"
    "\<not> DREADLOCK_VERBOSE header_config" "\<not> DREADLOCK_VERBOSE ndebug_config"
    by (simp_all add: header_config_def ndebug_config_def)
  have i: "id_name h1 = ''mtx''" "this_dreadlock h1 = 1"
    by (simp_all add: h1_def)
  show ?thesis
    using f m c
      lock_illegal_reentry [OF f, of header_config "''src/b.cpp''" 20 "[]" "[]"]
      lock_illegal_reentry [OF f, of ndebug_config "''src/b.cpp''" 20 "[]" "[]"]
    by (simp add: i)
qed

text \<open>
  C4 as the specification states it fails in a build with \<^verbatim>\<open>NDEBUG\<close>: the handle \<open>h1\<close>
  locks again what it holds, the message is printed, the call waits in the loop (with no
  tick it is still waiting), and at the tick that reaches the deadlock timeout it finds
  itself registered and returns.
\<close>

theorem lock_reentry_without_assert:
  "find_node (mtx_key h1) (tracking held_by_h1)
     = Some \<lparr>node_key = 7, node_addr = 0,
             node_val = \<lparr>dreadlock_id = 1, lock_file = ''a.cpp'', lock_line = 10\<rparr>\<rparr>
   \<and> lock ndebug_config h1 ''src/b.cpp'' 20 [] [] held_by_h1
       = (Waiting, [IllegalLock ''mtx'' ''b.cpp'' 20 ''a.cpp'' 10], held_by_h1)
   \<and> lock ndebug_config h1 ''src/b.cpp'' 20 [\<lparr>during_sleep = [], elapsed = 5000\<rparr>] [] held_by_h1
       = (Returned, [IllegalLock ''mtx'' ''b.cpp'' 20 ''a.cpp'' 10], held_by_h1)"
proof -
  have f: "find_node 7 (tracking held_by_h1)
     = Some \<lparr>node_key = 7, node_addr = 0,
             node_val = \<lparr>dreadlock_id = 1, lock_file = ''a.cpp'', lock_line = 10\<rparr>\<rparr>"
    by (simp add: find_node_def held_by_h1_def)
  have m: "module_of ndebug_config ''src/b.cpp'' = Some ''b.cpp''"
    by (simp add: module_of_def header_config_def ndebug_config_def get_module_name_def
        sregex_tokens_def is_sep_def)
  have c: "NDEBUG ndebug_config" "\<not> DREADLOCK_VERBOSE ndebug_config"
    "DeadlockTimeout ndebug_config = 5000" "PerformanceTimeout ndebug_config = 1000"
    "AssertOnDeadlock ndebug_config"
    by (simp_all add: header_config_def ndebug_config_def)
  have i: "id_name h1 = ''mtx''" "this_dreadlock h1 = 1" "mtx_key h1 = 7"
    by (simp_all add: h1_def)
  show ?thesis
    by (simp add: lock_def lock_wait_def m f c i env_steps_Nil Let_def locked_by_me_def)
qed

section \<open>C5: unlock by a handle that is not the holder\<close>

text \<open>
  C5, as amended. When the registry has no node for the mutex, or a node of another
  handle, \<open>unlock\<close> prints the matching message (unowned unlock, or illegal unlock with the
  holder's id and location), and the real mutex and the registry are returned as they
  were. In a build with assertions (\<^verbatim>\<open>NDEBUG\<close> not defined) the call then fails its
  assertion; in a build with \<^verbatim>\<open>NDEBUG\<close> it returns to the caller.
\<close>

theorem unlock_not_holder:
  assumes "\<not> locked_by_me h w"
  shows "\<exists>module. module_of cfg file = Some module \<and>
    unlock cfg h file line w =
      (if NDEBUG cfg then Returned else AssertFailed,
       [case find_node (mtx_key h) (tracking w) of
          None \<Rightarrow> UnlockUnowned (id_name h) module line
        | Some n \<Rightarrow> IllegalUnlock (id_name h) (this_dreadlock h) module line
                     (dreadlock_id (node_val n)) (lock_file (node_val n)) (lock_line (node_val n))],
       w)"
proof -
  obtain module where m: "module_of cfg file = Some module"
    using module_of_defined by blast
  show ?thesis
    using assms by (auto simp: unlock_def locked_by_me_def m Let_def split: option.splits)
qed

text \<open>
  C5 as amended, at two concrete states in the build of the header: held by another
  handle, and with no node.
\<close>

theorem unlock_not_holder_witness:
  "\<not> locked_by_me h0 held_by_h1 \<and> \<not> locked_by_me h0 held_outside
   \<and> unlock header_config h0 ''src/b.cpp'' 20 held_by_h1
       = (AssertFailed, [IllegalUnlock ''mtx'' 0 ''b.cpp'' 20 1 ''a.cpp'' 10], held_by_h1)
   \<and> unlock header_config h0 ''src/b.cpp'' 20 held_outside
       = (AssertFailed, [UnlockUnowned ''mtx'' ''b.cpp'' 20], held_outside)"
proof -
  have a: "\<not> locked_by_me h0 held_by_h1" and b: "\<not> locked_by_me h0 held_outside"
    by (simp_all add: locked_by_me_def find_node_def h0_def held_by_h1_def held_outside_def)
  have m: "module_of header_config ''src/b.cpp'' = Some ''b.cpp''"
    by (simp add: module_of_def header_config_def get_module_name_def sregex_tokens_def is_sep_def)
  have c: "\<not> NDEBUG header_config"
    by (simp add: header_config_def)
  have fa: "find_node (mtx_key h0) (tracking held_by_h1)
     = Some \<lparr>node_key = 7, node_addr = 0,
             node_val = \<lparr>dreadlock_id = 1, lock_file = ''a.cpp'', lock_line = 10\<rparr>\<rparr>"
    and fb: "find_node (mtx_key h0) (tracking held_outside) = None"
    by (simp_all add: find_node_def h0_def held_by_h1_def held_outside_def)
  show ?thesis
    using a b m c
      unlock_not_holder [OF a, of header_config "''src/b.cpp''" 20]
      unlock_not_holder [OF b, of header_config "''src/b.cpp''" 20]
    by (simp add: fa fb) (simp add: h0_def)
qed

text \<open>
  C5 as the specification states it fails in a build with \<^verbatim>\<open>NDEBUG\<close>: \<open>h0\<close> unlocks the
  mutex that \<open>h1\<close> holds, the message is printed and the call returns.
\<close>

theorem unlock_not_holder_without_assert:
  "\<not> locked_by_me h0 held_by_h1
   \<and> unlock ndebug_config h0 ''src/b.cpp'' 20 held_by_h1
       = (Returned, [IllegalUnlock ''mtx'' 0 ''b.cpp'' 20 1 ''a.cpp'' 10], held_by_h1)"
proof -
  have m: "module_of ndebug_config ''src/b.cpp'' = Some ''b.cpp''"
    by (simp add: module_of_def header_config_def ndebug_config_def get_module_name_def
        sregex_tokens_def is_sep_def)
  have c: "NDEBUG ndebug_config"
    by (simp add: header_config_def ndebug_config_def)
  show ?thesis
    by (simp add: unlock_def m c locked_by_me_def)
       (simp add: find_node_def h0_def held_by_h1_def)
qed

section \<open>Release by the holder\<close>

lemma unlock_by_holder:
  assumes "registry_consistent w" "locked_by_me h w" "module_of cfg file = Some module"
  shows "unlock cfg h file line w =
     (Returned,
      (case find_node (mtx_key h) (tracking w) of
         None \<Rightarrow> []
       | Some n \<Rightarrow> if DREADLOCK_VERBOSE cfg
                   then [Unlocking (id_name h) module line (lock_file (node_val n)) (lock_line (node_val n))]
                   else []),
      w\<lparr>locked := locked w - {mtx_key h}, tracking := erase (mtx_key h) (tracking w)\<rparr>)"
proof -
  obtain n where n: "find_node (mtx_key h) (tracking w) = Some n"
    "dreadlock_id (node_val n) = this_dreadlock h"
    using assms(2) by (auto simp: locked_by_me_def split: option.splits)
  then have "mtx_key h \<in> locked w"
    using assms(1) find_node_SomeD [OF n(1)] by (auto simp: registry_consistent_def)
  then show ?thesis
    using n assms(3) by (simp add: unlock_def Let_def)
qed

section \<open>Facts about the example inputs\<close>

lemma header_config_simps:
  "AssertOnDeadlock header_config" "PerformanceTimeout header_config = 1000"
  "DeadlockTimeout header_config = 5000" "ShortModuleNames header_config"
  "\<not> DREADLOCK_VERBOSE header_config" "\<not> NDEBUG header_config"
  by (simp_all add: header_config_def)

lemma h0_simps:
  "this_dreadlock h0 = 0" "id_name h0 = ''mtx''" "mtx_key h0 = 7"
  "destruct_file h0 = []" "destruct_line h0 = 0"
  by (simp_all add: h0_def)

lemma h1_simps:
  "this_dreadlock h1 = 1" "id_name h1 = ''mtx''" "mtx_key h1 = 7"
  "destruct_file h1 = []" "destruct_line h1 = 0"
  by (simp_all add: h1_def)

lemma find_node_erase_world:
  "find_node k (tracking (w\<lparr>locked := L, tracking := erase k (tracking w)\<rparr>)) = None"
  by (simp add: find_node_erase)

section \<open>C6: lock then unlock\<close>

text \<open>
  C6. From a reachable state, when \<open>lock\<close> returns with this handle registered as the
  holder, an \<open>unlock\<close> of the same handle right after it (at any location) returns, and
  the state it leaves has no node for the mutex; the real mutex is unlocked.
\<close>

theorem lock_unlock_round_trip:
  assumes "reachable cfg w"
    and "lock cfg h file1 line1 ticks after_loop w = (Returned, ev, w1)"
    and "locked_by_me h w1"
  shows "\<exists>ev2 w2. unlock cfg h file2 line2 w1 = (Returned, ev2, w2)
           \<and> find_node (mtx_key h) (tracking w2) = None \<and> mtx_key h \<notin> locked w2"
proof -
  have "reachable cfg w1"
    using assms(1,2) by (rule reachable.lock)
  then have c: "registry_consistent w1"
    by (rule reachable_consistent)
  obtain module where m: "module_of cfg file2 = Some module"
    using module_of_defined by blast
  show ?thesis
    unfolding unlock_by_holder [OF c assms(3) m]
    by (simp add: find_node_erase)
qed

text \<open>
  C6 at a concrete run: \<open>h0\<close> waits for the mutex that \<open>h1\<close> holds, \<open>h1\<close> unlocks during
  the first sleep, \<open>h0\<close> acquires and then unlocks.
\<close>

theorem lock_unlock_round_trip_witness:
  "reachable header_config held_by_h1
   \<and> lock header_config h0 ''src/b.cpp'' 20
        [\<lparr>during_sleep = [OtherUnlock h1 ''a.cpp'' 30], elapsed = 0\<rparr>] [] held_by_h1
       = (Returned, [],
          \<lparr>tracking = [\<lparr>node_key = 7, node_addr = 1,
                         node_val = \<lparr>dreadlock_id = 0, lock_file = ''b.cpp'', lock_line = 20\<rparr>\<rparr>],
           locked = {7}, next_id = 0, next_node = 2\<rparr>)
   \<and> locked_by_me h0
        \<lparr>tracking = [\<lparr>node_key = 7, node_addr = 1,
                       node_val = \<lparr>dreadlock_id = 0, lock_file = ''b.cpp'', lock_line = 20\<rparr>\<rparr>],
         locked = {7}, next_id = 0, next_node = 2\<rparr>
   \<and> (\<exists>ev2 w2. unlock header_config h0 ''src/c.cpp'' 40
          \<lparr>tracking = [\<lparr>node_key = 7, node_addr = 1,
                         node_val = \<lparr>dreadlock_id = 0, lock_file = ''b.cpp'', lock_line = 20\<rparr>\<rparr>],
           locked = {7}, next_id = 0, next_node = 2\<rparr> = (Returned, ev2, w2)
        \<and> find_node (mtx_key h0) (tracking w2) = None \<and> mtx_key h0 \<notin> locked w2)"
proof -
  let ?w1 = "\<lparr>tracking = [\<lparr>node_key = 7, node_addr = 1,
                         node_val = \<lparr>dreadlock_id = 0, lock_file = ''b.cpp'', lock_line = 20\<rparr>\<rparr>],
           locked = {7::nat}, next_id = 0, next_node = 2\<rparr>"
  have m: "module_of header_config ''src/b.cpp'' = Some ''b.cpp''"
    "module_of header_config ''a.cpp'' = Some ''a.cpp''"
    by (simp_all add: module_of_def header_config_def get_module_name_def sregex_tokens_def is_sep_def)
  have e: "env_steps header_config [OtherUnlock h1 ''a.cpp'' 30] held_by_h1
             = \<lparr>tracking = [], locked = {}, next_id = 0, next_node = 1\<rparr>"
    by (simp add: env_steps_def unlock_def m find_node_def h1_def held_by_h1_def erase_def)
  have f: "find_node 7 (tracking held_by_h1)
     = Some \<lparr>node_key = 7, node_addr = 0,
             node_val = \<lparr>dreadlock_id = 1, lock_file = ''a.cpp'', lock_line = 10\<rparr>\<rparr>"
    by (simp add: find_node_def held_by_h1_def)
  have wl: "wait_loop header_config h0 ''b.cpp'' 20 (Some 0) False
        [\<lparr>during_sleep = [OtherUnlock h1 ''a.cpp'' 30], elapsed = 0\<rparr>] held_by_h1
       = (Returned, [], ?w1)"
    by (simp add: e Let_def)
       (simp add: find_node_def h0_def try_lock_def tracking_emplace_def emplace_def)
  have b: "locked_by_me h0 ?w1"
    by (simp add: locked_by_me_def find_node_def h0_def)
  have lw: "lock_wait header_config h0 ''b.cpp'' 20 (Some 0) []
        [\<lparr>during_sleep = [OtherUnlock h1 ''a.cpp'' 30], elapsed = 0\<rparr>] [] held_by_h1
       = (Returned, [], ?w1)"
    unfolding lock_wait_def wl using b by (simp add: env_steps_Nil)
  have l: "lock header_config h0 ''src/b.cpp'' 20
        [\<lparr>during_sleep = [OtherUnlock h1 ''a.cpp'' 30], elapsed = 0\<rparr>] [] held_by_h1
       = (Returned, [], ?w1)"
    by (simp add: lock_def m f header_config_simps h0_simps lw)
  have b: "locked_by_me h0 ?w1"
    by (simp add: locked_by_me_def find_node_def h0_def)
  show ?thesis
    using held_by_h1_reachable [of header_config] l b
      lock_unlock_round_trip [OF held_by_h1_reachable l b, of "''src/c.cpp''" 40]
    by simp
qed

section \<open>C8: the destructor\<close>

lemma locked_by_me_destruct: "locked_by_me (destruct h file line) w = locked_by_me h w"
  by (simp add: locked_by_me_def destruct_def split: option.splits)

lemma ctor_handle:
  "Dreadlock_ctor cfg mtx name file line dfr before ticks after_loop w = (h, res) \<Longrightarrow>
   h = \<lparr>this_dreadlock = next_id w, id_name = name, mtx_key = mtx,
        destruct_file = [], destruct_line = 0\<rparr>"
  by (auto simp: Dreadlock_ctor_def Let_def split: if_splits)

lemma dtor_by_holder:
  "locked_by_me h w \<Longrightarrow>
   Dreadlock_dtor cfg h between w =
     unlock cfg h (if destruct_file h = [] then ''Dreadlock::~Dreadlock()'' else destruct_file h)
       (if destruct_line h \<noteq> 0 then destruct_line h else 65) (env_steps cfg between w)"
  by (simp add: Dreadlock_dtor_def)

text \<open>
  C8, as amended. When the registry records the handle as the holder of its mutex, the
  destructor calls \<open>unlock\<close>. The file it passes is the one given to \<open>destruct\<close> when that
  is not empty, and the marker \<^verbatim>\<open>Dreadlock::~Dreadlock()\<close> otherwise; the line it passes is
  the one given to \<open>destruct\<close> when that is not 0, and the destructor's own line 65
  otherwise: each of the two falls back on its own. A handle on which \<open>destruct\<close> was never
  called gets the marker and line 65. From a reachable state and with no other thread in
  between, the call returns and leaves the mutex unlocked and without a node. When the
  registry does not record the handle as holder (no node, or the node of another handle)
  the destructor returns at once with the state as it was and prints nothing.
\<close>

theorem destructor_release:
  "(locked_by_me h w \<longrightarrow>
      Dreadlock_dtor cfg (destruct h file line) between w
        = unlock cfg (destruct h file line)
            (if file = [] then ''Dreadlock::~Dreadlock()'' else file)
            (if line \<noteq> 0 then line else 65)
            (env_steps cfg between w))
   \<and> (locked_by_me h w \<and> destruct_file h = [] \<and> destruct_line h = 0 \<longrightarrow>
      Dreadlock_dtor cfg h between w
        = unlock cfg h ''Dreadlock::~Dreadlock()'' 65 (env_steps cfg between w))
   \<and> (reachable cfg w \<and> locked_by_me h w \<longrightarrow>
      (\<exists>ev. Dreadlock_dtor cfg h [] w
         = (Returned, ev,
            w\<lparr>locked := locked w - {mtx_key h}, tracking := erase (mtx_key h) (tracking w)\<rparr>)))
   \<and> (\<not> locked_by_me h w \<longrightarrow> Dreadlock_dtor cfg h between w = (Returned, [], w))"
proof -
  have 1: "Dreadlock_dtor cfg (destruct h file line) between w
        = unlock cfg (destruct h file line)
            (if file = [] then ''Dreadlock::~Dreadlock()'' else file)
            (if line \<noteq> 0 then line else 65)
            (env_steps cfg between w)"
    if "locked_by_me h w"
    using that dtor_by_holder [of "destruct h file line" w cfg between]
    by (simp add: locked_by_me_destruct) (simp add: destruct_def)
  have 2: "Dreadlock_dtor cfg h between w
        = unlock cfg h ''Dreadlock::~Dreadlock()'' 65 (env_steps cfg between w)"
    if "locked_by_me h w" "destruct_file h = []" "destruct_line h = 0"
    using that dtor_by_holder [of h w cfg between] by simp
  have 3: "\<exists>ev. Dreadlock_dtor cfg h [] w
         = (Returned, ev,
            w\<lparr>locked := locked w - {mtx_key h}, tracking := erase (mtx_key h) (tracking w)\<rparr>)"
    if r: "reachable cfg w" and l: "locked_by_me h w"
  proof -
    obtain module where m: "module_of cfg
        (if destruct_file h = [] then ''Dreadlock::~Dreadlock()'' else destruct_file h) = Some module"
      using module_of_defined by blast
    show ?thesis
      unfolding dtor_by_holder [OF l] env_steps_Nil
        unlock_by_holder [OF reachable_consistent [OF r] l m]
      by blast
  qed
  have 4: "Dreadlock_dtor cfg h between w = (Returned, [], w)" if "\<not> locked_by_me h w"
    using that by (simp add: Dreadlock_dtor_def)
  show ?thesis using 1 2 3 4 by blast
qed

text \<open>
  C8 as amended, at a concrete state: \<open>h1\<close> holds the mutex, \<open>h0\<close> does not. The location
  given to \<open>destruct\<close> is used whole, or its file alone, or its line alone, or none of it.
\<close>

theorem destructor_release_witness:
  "reachable header_config held_by_h1 \<and> locked_by_me h1 held_by_h1 \<and> \<not> locked_by_me h0 held_by_h1
   \<and> destruct_file h1 = [] \<and> destruct_line h1 = 0
   \<and> Dreadlock_dtor header_config (destruct h1 ''src/a.cpp'' 33) [] held_by_h1
       = unlock header_config (destruct h1 ''src/a.cpp'' 33) ''src/a.cpp'' 33 held_by_h1
   \<and> Dreadlock_dtor header_config (destruct h1 ''src/a.cpp'' 0) [] held_by_h1
       = unlock header_config (destruct h1 ''src/a.cpp'' 0) ''src/a.cpp'' 65 held_by_h1
   \<and> Dreadlock_dtor header_config (destruct h1 [] 33) [] held_by_h1
       = unlock header_config (destruct h1 [] 33) ''Dreadlock::~Dreadlock()'' 33 held_by_h1
   \<and> Dreadlock_dtor header_config h1 [] held_by_h1
       = unlock header_config h1 ''Dreadlock::~Dreadlock()'' 65 held_by_h1
   \<and> Dreadlock_dtor header_config h1 [] held_by_h1
       = (Returned, [], \<lparr>tracking = [], locked = {}, next_id = 0, next_node = 1\<rparr>)
   \<and> Dreadlock_dtor header_config h0 [] held_by_h1 = (Returned, [], held_by_h1)"
proof -
  have a: "locked_by_me h1 held_by_h1" and b: "\<not> locked_by_me h0 held_by_h1"
    by (simp_all add: locked_by_me_def find_node_def h0_def h1_def held_by_h1_def)
  have d: "destruct_file h1 = []" "destruct_line h1 = 0"
    by (simp_all add: h1_def)
  have m: "module_of header_config ''Dreadlock::~Dreadlock()'' = Some ''Dreadlock::~Dreadlock()''"
    by (simp add: module_of_def header_config_def get_module_name_def sregex_tokens_def is_sep_def)
  have u: "unlock header_config h1 ''Dreadlock::~Dreadlock()'' 65 held_by_h1
       = (Returned, [], \<lparr>tracking = [], locked = {}, next_id = 0, next_node = 1\<rparr>)"
    by (simp add: unlock_def m) (simp add: find_node_def h1_def held_by_h1_def erase_def header_config_def)
  show ?thesis
    using a b d u held_by_h1_reachable [of header_config]
      destructor_release [of h1 held_by_h1 header_config "''src/a.cpp''" 33 "[]"]
      destructor_release [of h1 held_by_h1 header_config "''src/a.cpp''" 0 "[]"]
      destructor_release [of h1 held_by_h1 header_config "[]" 33 "[]"]
      destructor_release [of h0 held_by_h1 header_config "''src/a.cpp''" 33 "[]"]
    by (simp add: env_steps_Nil)
qed

text \<open>
  C8 as the specification states it fails after \<^verbatim>\<open>destruct("dir/x.cpp", 0)\<close>: the
  destructor of the holder unlocks at \<^verbatim>\<open>x.cpp:65\<close>, as the message of the verbose build
  shows. That is not the location that was given (line 0), and it is not the default marker
  either.
\<close>

theorem destructor_mixed_location:
  "locked_by_me (destruct h1 ''dir/x.cpp'' 0) held_by_h1
   \<and> Dreadlock_dtor verbose_config (destruct h1 ''dir/x.cpp'' 0) [] held_by_h1
       = (Returned, [Unlocking ''mtx'' ''x.cpp'' 65 ''a.cpp'' 10],
          \<lparr>tracking = [], locked = {}, next_id = 0, next_node = 1\<rparr>)
   \<and> unlock verbose_config (destruct h1 ''dir/x.cpp'' 0) ''dir/x.cpp'' 0 held_by_h1
       = (Returned, [Unlocking ''mtx'' ''x.cpp'' 0 ''a.cpp'' 10],
          \<lparr>tracking = [], locked = {}, next_id = 0, next_node = 1\<rparr>)
   \<and> unlock verbose_config (destruct h1 ''dir/x.cpp'' 0) ''Dreadlock::~Dreadlock()'' 65 held_by_h1
       = (Returned, [Unlocking ''mtx'' ''Dreadlock::~Dreadlock()'' 65 ''a.cpp'' 10],
          \<lparr>tracking = [], locked = {}, next_id = 0, next_node = 1\<rparr>)"
proof -
  have m: "module_of verbose_config ''dir/x.cpp'' = Some ''x.cpp''"
    "module_of verbose_config ''Dreadlock::~Dreadlock()'' = Some ''Dreadlock::~Dreadlock()''"
    by (simp_all add: module_of_def verbose_config_def header_config_def get_module_name_def
        sregex_tokens_def is_sep_def)
  have c: "DREADLOCK_VERBOSE verbose_config"
    by (simp add: verbose_config_def header_config_def)
  have l: "locked_by_me (destruct h1 ''dir/x.cpp'' 0) held_by_h1"
    by (simp add: locked_by_me_def destruct_def find_node_def h1_def held_by_h1_def)
  have u: "unlock verbose_config (destruct h1 ''dir/x.cpp'' 0) f n held_by_h1
       = (Returned, [Unlocking ''mtx'' module n ''a.cpp'' 10],
          \<lparr>tracking = [], locked = {}, next_id = 0, next_node = 1\<rparr>)"
    if "module_of verbose_config f = Some module" for f n module
    by (simp add: unlock_def that c destruct_def find_node_def h1_def held_by_h1_def erase_def)
  have d: "Dreadlock_dtor verbose_config (destruct h1 ''dir/x.cpp'' 0) [] held_by_h1
       = unlock verbose_config (destruct h1 ''dir/x.cpp'' 0) ''dir/x.cpp'' 65 held_by_h1"
    using l by (simp add: Dreadlock_dtor_def env_steps_Nil) (simp add: destruct_def)
  show ?thesis
    using l d u [OF m(1)] u [OF m(2)] by simp
qed

section \<open>C7: the performance warning\<close>

lemma wait_loop_performance_once:
  "length (filter is_performance_warning
     (fst (snd (wait_loop cfg h module line info rp ticks w))))
   \<le> (if rp \<or> PerformanceTimeout cfg = 0 then 0 else 1)"
proof (induction ticks arbitrary: w rp)
  case Nil
  show ?case by simp
next
  case (Cons t ts)
  define w1 where "w1 = env_steps cfg (during_sleep t) w"
  have rec: "length (filter is_performance_warning
     (fst (snd (wait_loop cfg h module line info rp' ts w1))))
   \<le> (if rp' \<or> PerformanceTimeout cfg = 0 then 0 else 1)" for rp'
    by (rule Cons.IH)
  show ?case
    using rec [of True] rec [of rp]
    by (auto simp: Let_def w1_def [symmetric] split: prod.splits bool.splits option.splits)
qed

lemma lock_wait_performance_once:
  assumes "filter is_performance_warning ev0 = []"
  shows "length (filter is_performance_warning
     (fst (snd (lock_wait cfg h module line info ev0 ticks after_loop w))))
   \<le> (if PerformanceTimeout cfg = 0 then 0 else 1)"
proof -
  obtain r ev1 w1 where wl: "wait_loop cfg h module line info False ticks w = (r, ev1, w1)"
    by (cases "wait_loop cfg h module line info False ticks w") auto
  have "length (filter is_performance_warning ev1) \<le> (if PerformanceTimeout cfg = 0 then 0 else 1)"
    using wait_loop_performance_once [of cfg h module line info False ticks w] by (simp add: wl)
  then show ?thesis
    unfolding lock_wait_def wl using assms
    by (cases r) (auto simp: Let_def split: option.splits if_splits)
qed

text \<open>
  C7. Among the messages that one call of \<open>lock\<close> prints there is at most one performance
  warning, for every schedule of the other threads and every sequence of clock readings,
  also when the ticks end with the call still waiting; and there is none when
  \<open>PerformanceTimeout\<close> is 0.
\<close>

theorem performance_warning_once:
  "length (filter is_performance_warning (fst (snd (lock cfg h file line ticks after_loop w)))) \<le> 1
   \<and> (PerformanceTimeout cfg = 0 \<longrightarrow>
        filter is_performance_warning (fst (snd (lock cfg h file line ticks after_loop w))) = [])"
proof -
  define bnd :: nat where "bnd = (if PerformanceTimeout cfg = 0 then 0 else 1)"
  have lw: "length (filter is_performance_warning
       (fst (snd (lock_wait cfg h module line info ev0 ticks after_loop w')))) \<le> bnd"
    if "filter is_performance_warning ev0 = []" for module info ev0 w'
    unfolding bnd_def using that by (rule lock_wait_performance_once)
  have "length (filter is_performance_warning (fst (snd (lock cfg h file line ticks after_loop w))))
     \<le> bnd"
  proof (cases "module_of cfg file")
    case None
    then show ?thesis by (simp add: lock_def Let_def)
  next
    case (Some module)
    show ?thesis
    proof (cases "find_node (mtx_key h) (tracking w)")
      case (Some n)
      then show ?thesis
        using \<open>module_of cfg file = Some module\<close>
        by (simp add: lock_def Let_def lw)
    next
      case None
      obtain b w1 where tl: "try_lock (mtx_key h) w = (b, w1)"
        by (cases "try_lock (mtx_key h) w") auto
      show ?thesis
        using None tl \<open>module_of cfg file = Some module\<close>
        by (cases b) (simp_all add: lock_def Let_def lw)
    qed
  qed
  then show ?thesis by (auto simp: bnd_def split: if_splits)
qed

text \<open>
  C7 at a concrete run: the threshold is passed in three iterations and one warning is
  printed; with the threshold set to 0 none is.
\<close>

theorem performance_warning_once_witness:
  "lock header_config h0 ''src/b.cpp'' 20
      [\<lparr>during_sleep = [], elapsed = 999\<rparr>, \<lparr>during_sleep = [], elapsed = 1000\<rparr>,
       \<lparr>during_sleep = [], elapsed = 2000\<rparr>, \<lparr>during_sleep = [], elapsed = 3000\<rparr>] [] held_by_h1
     = (Waiting, [PerformanceWarning ''mtx'' ''b.cpp'' 20 1000 (Some (''a.cpp'', 10))], held_by_h1)
   \<and> length (filter is_performance_warning (fst (snd
        (lock header_config h0 ''src/b.cpp'' 20
          [\<lparr>during_sleep = [], elapsed = 999\<rparr>, \<lparr>during_sleep = [], elapsed = 1000\<rparr>,
           \<lparr>during_sleep = [], elapsed = 2000\<rparr>, \<lparr>during_sleep = [], elapsed = 3000\<rparr>] []
          held_by_h1)))) \<le> 1
   \<and> PerformanceTimeout (header_config\<lparr>PerformanceTimeout := 0\<rparr>) = 0
   \<and> lock (header_config\<lparr>PerformanceTimeout := 0\<rparr>) h0 ''src/b.cpp'' 20
        [\<lparr>during_sleep = [], elapsed = 1000\<rparr>, \<lparr>during_sleep = [], elapsed = 2000\<rparr>] [] held_by_h1
     = (Waiting, [], held_by_h1)"
proof -
  have m: "module_of header_config ''src/b.cpp'' = Some ''b.cpp''"
    "module_of (header_config\<lparr>PerformanceTimeout := 0\<rparr>) ''src/b.cpp'' = Some ''b.cpp''"
    by (simp_all add: module_of_def header_config_def get_module_name_def sregex_tokens_def is_sep_def)
  have f: "find_node 7 (tracking held_by_h1)
     = Some \<lparr>node_key = 7, node_addr = 0,
             node_val = \<lparr>dreadlock_id = 1, lock_file = ''a.cpp'', lock_line = 10\<rparr>\<rparr>"
    by (simp add: find_node_def held_by_h1_def)
  have d: "deref 0 (tracking held_by_h1)
     = Some \<lparr>dreadlock_id = 1, lock_file = ''a.cpp'', lock_line = 10\<rparr>"
    by (simp add: deref_def held_by_h1_def)
  have 1: "lock header_config h0 ''src/b.cpp'' 20
      [\<lparr>during_sleep = [], elapsed = 999\<rparr>, \<lparr>during_sleep = [], elapsed = 1000\<rparr>,
       \<lparr>during_sleep = [], elapsed = 2000\<rparr>, \<lparr>during_sleep = [], elapsed = 3000\<rparr>] [] held_by_h1
     = (Waiting, [PerformanceWarning ''mtx'' ''b.cpp'' 20 1000 (Some (''a.cpp'', 10))], held_by_h1)"
    by (simp add: lock_def lock_wait_def m f d header_config_simps h0_simps env_steps_Nil Let_def)
  have 2: "lock (header_config\<lparr>PerformanceTimeout := 0\<rparr>) h0 ''src/b.cpp'' 20
        [\<lparr>during_sleep = [], elapsed = 1000\<rparr>, \<lparr>during_sleep = [], elapsed = 2000\<rparr>] [] held_by_h1
     = (Waiting, [], held_by_h1)"
    by (simp add: lock_def lock_wait_def m f d header_config_simps h0_simps env_steps_Nil Let_def)
  show ?thesis
    using 1 2
      performance_warning_once [of header_config h0 "''src/b.cpp''" 20
        "[\<lparr>during_sleep = [], elapsed = 999\<rparr>, \<lparr>during_sleep = [], elapsed = 1000\<rparr>,
          \<lparr>during_sleep = [], elapsed = 2000\<rparr>, \<lparr>during_sleep = [], elapsed = 3000\<rparr>]" "[]" held_by_h1]
    by simp
qed

section \<open>C2: how the wait loop ends\<close>

lemma locked_by_me_acquired:
  assumes "find_node (mtx_key h) (tracking w) = None"
  shows "locked_by_me h (tracking_emplace h module line (w\<lparr>locked := L\<rparr>))"
  using assms by (simp add: locked_by_me_def tracking_emplace_def find_node_emplace)










text \<open>The loop is over at the latest at the first tick that reaches the timeout.\<close>

lemma wait_loop_ends:
  "\<exists>t\<in>set ticks. DeadlockTimeout cfg \<le> elapsed t \<Longrightarrow>
   fst (wait_loop cfg h module line info rp ticks w) \<noteq> Waiting"
proof (induction ticks arbitrary: w rp)
  case Nil
  then show ?case by simp
next
  case (Cons t ts)
  define w1 where "w1 = env_steps cfg (during_sleep t) w"
  show ?case
  proof (cases "DeadlockTimeout cfg \<le> elapsed t")
    case True
    then show ?thesis
      by (auto simp: Let_def split: prod.splits bool.splits)
  next
    case False
    with Cons.prems have "\<exists>t\<in>set ts. DeadlockTimeout cfg \<le> elapsed t" by auto
    then have rec: "fst (wait_loop cfg h module line info rp' ts w1) \<noteq> Waiting" for rp'
      by (rule Cons.IH)
    show ?thesis
      using rec [of True] rec [of rp]
      by (auto simp: Let_def w1_def [symmetric] split: prod.splits bool.splits option.splits)
  qed
qed





section \<open>C9 and C3: the deadlock report and the pointer info\<close>

lemma wait_loop_outcomes:
  "fst (wait_loop cfg h module line info rp ticks w) \<in> {Returned, Waiting, Undefined DanglingDeref}
   \<and> (info = None \<longrightarrow> fst (wait_loop cfg h module line info rp ticks w) \<noteq> Undefined DanglingDeref)
   \<and> filter is_deadlock_report (fst (snd (wait_loop cfg h module line info rp ticks w))) = []"
proof (induction ticks arbitrary: w rp)
  case Nil
  show ?case by simp
next
  case (Cons t ts)
  define w1 where "w1 = env_steps cfg (during_sleep t) w"
  have rec: "fst (wait_loop cfg h module line info rp' ts w1) \<in> {Returned, Waiting, Undefined DanglingDeref}
   \<and> (info = None \<longrightarrow> fst (wait_loop cfg h module line info rp' ts w1) \<noteq> Undefined DanglingDeref)
   \<and> filter is_deadlock_report (fst (snd (wait_loop cfg h module line info rp' ts w1))) = []" for rp'
    by (rule Cons.IH)
  show ?case
    using rec [of True] rec [of rp]
    by (auto simp: Let_def w1_def [symmetric] split: prod.splits bool.splits option.splits)
qed

lemma lock_wait_null_info:
  "case lock_wait cfg h module line None evp ticks after_loop w of
     (r, ev, w') \<Rightarrow>
       (r = Waiting \<or> r = Undefined NullDeref \<or> (r = Returned \<and> locked_by_me h w'))
       \<and> filter is_deadlock_report ev = filter is_deadlock_report evp"
proof -
  obtain r ev1 w1 where wl: "wait_loop cfg h module line None False ticks w = (r, ev1, w1)"
    by (cases "wait_loop cfg h module line None False ticks w") auto
  have "r \<in> {Returned, Waiting, Undefined DanglingDeref}" "r \<noteq> Undefined DanglingDeref"
    "filter is_deadlock_report ev1 = []"
    using wait_loop_outcomes [of cfg h module line None False ticks w] by (auto simp: wl)
  then show ?thesis
    unfolding lock_wait_def wl
    by (cases "locked_by_me h (env_steps cfg after_loop w1)") (auto simp: Let_def)
qed

lemma lock_wait_live_info:
  "fst (lock_wait cfg h module line (Some p) evp ticks after_loop w) \<noteq> Undefined NullDeref"
proof -
  obtain r ev1 w1 where wl: "wait_loop cfg h module line (Some p) False ticks w = (r, ev1, w1)"
    by (cases "wait_loop cfg h module line (Some p) False ticks w") auto
  have "r \<in> {Returned, Waiting, Undefined DanglingDeref}"
    using wait_loop_outcomes [of cfg h module line "Some p" False ticks w] by (simp add: wl)
  then show ?thesis
    unfolding lock_wait_def wl by (auto simp: Let_def split: option.splits if_splits)
qed

lemma lock_wait_null_quiet:
  assumes "find_node (mtx_key h) (tracking w) = None" "mtx_key h \<in> locked w" "during_sleep t = []"
  shows "lock_wait cfg h module line None evp (t # ts) [] w = (Undefined NullDeref, evp, w)"
  using assms
  by (simp add: lock_wait_def env_steps_Nil try_lock_def Let_def locked_by_me_def)

text \<open>
  C9. When \<open>lock\<close> finds no node for the mutex and the mutex is locked, \<open>info\<close> stays
  null. Such a call is still waiting, or has acquired the mutex, or has reached the
  deadlock report and read through the null pointer; it never prints the report. When
  nothing changes during the first sleep the call does read through the null pointer.
  When a node was found at entry the call never reads through a null pointer.
\<close>

theorem deadlock_report_null_info:
  "(find_node (mtx_key h) (tracking w) = None \<and> mtx_key h \<in> locked w \<longrightarrow>
      (case lock cfg h file line ticks after_loop w of
         (r, ev, w') \<Rightarrow>
           (r = Waiting \<or> r = Undefined NullDeref \<or> (r = Returned \<and> locked_by_me h w'))
           \<and> filter is_deadlock_report ev = []))
   \<and> (find_node (mtx_key h) (tracking w) = None \<and> mtx_key h \<in> locked w \<and> during_sleep t = [] \<longrightarrow>
      lock cfg h file line (t # ts) [] w
        = (Undefined NullDeref,
           (if DREADLOCK_VERBOSE cfg then [Locking (id_name h) file line] else []), w))
   \<and> (find_node (mtx_key h) (tracking w) \<noteq> None \<longrightarrow>
      fst (lock cfg h file line ticks after_loop w) \<noteq> Undefined NullDeref)"
proof -
  obtain module where m: "module_of cfg file = Some module"
    using module_of_defined by blast
  have 1: "case lock cfg h file line ticks after_loop w of
         (r, ev, w') \<Rightarrow>
           (r = Waiting \<or> r = Undefined NullDeref \<or> (r = Returned \<and> locked_by_me h w'))
           \<and> filter is_deadlock_report ev = []"
    if "find_node (mtx_key h) (tracking w) = None" "mtx_key h \<in> locked w"
    using that
      lock_wait_null_info [where cfg = cfg and h = h and module = module and line = line
        and evp = "if DREADLOCK_VERBOSE cfg then [Locking (id_name h) file line] else []"
        and ticks = ticks and after_loop = after_loop and w = w]
    by (simp add: lock_def m try_lock_def Let_def split: if_splits)
  have 2: "lock cfg h file line (t # ts) [] w
        = (Undefined NullDeref,
           (if DREADLOCK_VERBOSE cfg then [Locking (id_name h) file line] else []), w)"
    if "find_node (mtx_key h) (tracking w) = None" "mtx_key h \<in> locked w" "during_sleep t = []"
    using that lock_wait_null_quiet [OF that, of cfg module line _ ts]
    by (simp add: lock_def m try_lock_def Let_def del: wait_loop.simps)
  have 3: "fst (lock cfg h file line ticks after_loop w) \<noteq> Undefined NullDeref"
    if "find_node (mtx_key h) (tracking w) \<noteq> None"
    using that by (auto simp: lock_def m Let_def lock_wait_live_info split: if_splits)
  show ?thesis
    by (intro conjI impI; (elim conjE)?; rule 1 2 3; assumption)
qed

text \<open>C9 at concrete states: the mutex held outside the class, and held by \<open>h1\<close>.\<close>

theorem deadlock_report_null_info_witness:
  "find_node (mtx_key h0) (tracking held_outside) = None \<and> mtx_key h0 \<in> locked held_outside
   \<and> during_sleep \<lparr>during_sleep = [], elapsed = 0\<rparr> = []
   \<and> lock header_config h0 ''src/b.cpp'' 20 [\<lparr>during_sleep = [], elapsed = 0\<rparr>] [] held_outside
       = (Undefined NullDeref, [], held_outside)
   \<and> find_node (mtx_key h0) (tracking held_by_h1) \<noteq> None
   \<and> fst (lock header_config h0 ''src/b.cpp'' 20 [\<lparr>during_sleep = [], elapsed = 5000\<rparr>] []
            held_by_h1) \<noteq> Undefined NullDeref"
proof -
  have a: "find_node (mtx_key h0) (tracking held_outside) = None"
    "mtx_key h0 \<in> locked held_outside"
    by (simp_all add: find_node_def h0_def held_outside_def)
  have b: "find_node (mtx_key h0) (tracking held_by_h1) \<noteq> None"
    by (simp add: find_node_def h0_def held_by_h1_def)
  show ?thesis
    using a b
      deadlock_report_null_info [of h0 held_outside header_config "''src/b.cpp''" 20
        "[\<lparr>during_sleep = [], elapsed = 0\<rparr>]" "[]" "\<lparr>during_sleep = [], elapsed = 0\<rparr>" "[]"]
      deadlock_report_null_info [of h0 held_by_h1 header_config "''src/b.cpp''" 20
        "[\<lparr>during_sleep = [], elapsed = 5000\<rparr>]" "[]" "\<lparr>during_sleep = [], elapsed = 0\<rparr>" "[]"]
    by (simp add: header_config_simps)
qed

text \<open>
  With a pointer to a node that is still in the registry, the report is printed, and the
  call fails its assertion exactly when \<open>AssertOnDeadlock\<close> is set in a build with
  assertions.
\<close>

lemma deadlock_report_with_live_info:
  assumes "wait_loop cfg h module line (Some p) False ticks w = (Returned, ev1, w1)"
    and "w2 = env_steps cfg after_loop w1"
    and "\<not> locked_by_me h w2"
    and "deref p (tracking w2) = Some li"
  shows "lock_wait cfg h module line (Some p) evp ticks after_loop w =
     (if AssertOnDeadlock cfg \<and> \<not> NDEBUG cfg then AssertFailed else Returned,
      evp @ ev1 @ [DeadlockDetected (id_name h) module line (lock_file li) (lock_line li)],
      w2)"
  unfolding lock_wait_def assms(1) using assms(2-4) by (simp add: Let_def)

text \<open>
  C3 fails on the code. With \<open>AssertOnDeadlock\<close> off and the mutex held outside the
  class, the wait loop ends with \<open>h0\<close> not registered as holder, and the call reads
  through the null \<open>info\<close> instead of printing the report and returning. With a node found
  at entry and still there, the same configuration prints the report and returns.
\<close>

theorem deadlock_report_missing:
  "lock no_assert_config h0 ''src/b.cpp'' 20 [\<lparr>during_sleep = [], elapsed = 0\<rparr>] [] held_outside
     = (Undefined NullDeref, [], held_outside)
   \<and> \<not> locked_by_me h0 held_outside
   \<and> lock no_assert_config h0 ''src/b.cpp'' 20 [\<lparr>during_sleep = [], elapsed = 5000\<rparr>] []
        held_by_h1
     = (Returned, [DeadlockDetected ''mtx'' ''b.cpp'' 20 ''a.cpp'' 10], held_by_h1)"
proof -
  have c: "\<not> AssertOnDeadlock no_assert_config" "PerformanceTimeout no_assert_config = 1000"
    "DeadlockTimeout no_assert_config = 5000" "ShortModuleNames no_assert_config"
    "\<not> DREADLOCK_VERBOSE no_assert_config"
    by (simp_all add: no_assert_config_def header_config_def)
  have m: "module_of no_assert_config ''src/b.cpp'' = Some ''b.cpp''"
    by (simp add: module_of_def c get_module_name_def sregex_tokens_def is_sep_def)
  have fo: "find_node 7 (tracking held_outside) = None" "7 \<in> locked held_outside"
    by (simp_all add: find_node_def held_outside_def)
  have f: "find_node 7 (tracking held_by_h1)
     = Some \<lparr>node_key = 7, node_addr = 0,
             node_val = \<lparr>dreadlock_id = 1, lock_file = ''a.cpp'', lock_line = 10\<rparr>\<rparr>"
    by (simp add: find_node_def held_by_h1_def)
  have d: "deref 0 (tracking held_by_h1)
     = Some \<lparr>dreadlock_id = 1, lock_file = ''a.cpp'', lock_line = 10\<rparr>"
    by (simp add: deref_def held_by_h1_def)
  have 1: "lock no_assert_config h0 ''src/b.cpp'' 20 [\<lparr>during_sleep = [], elapsed = 0\<rparr>] []
      held_outside = (Undefined NullDeref, [], held_outside)"
    by (simp add: lock_def lock_wait_def m fo c h0_simps try_lock_def env_steps_Nil Let_def
        locked_by_me_def)
  have 2: "\<not> locked_by_me h0 held_outside"
    by (simp add: locked_by_me_def fo h0_simps)
  have 3: "lock no_assert_config h0 ''src/b.cpp'' 20 [\<lparr>during_sleep = [], elapsed = 5000\<rparr>] []
        held_by_h1
     = (Returned, [DeadlockDetected ''mtx'' ''b.cpp'' 20 ''a.cpp'' 10], held_by_h1)"
    by (simp add: lock_def lock_wait_def m f d c h0_simps env_steps_Nil Let_def locked_by_me_def)
  show ?thesis using 1 2 3 by blast
qed

section \<open>Further facts about lock\<close>

text \<open>
  The uncontended path, and termination: a call has left its wait loop once a tick has
  reached the deadlock timeout.
\<close>

lemma lock_fast_path:
  assumes "find_node (mtx_key h) (tracking w) = None" "mtx_key h \<notin> locked w"
  shows "\<exists>module. module_of cfg file = Some module \<and>
    lock cfg h file line ticks after_loop w =
      (Returned, (if DREADLOCK_VERBOSE cfg then [Locking (id_name h) file line] else []),
       tracking_emplace h module line (w\<lparr>locked := insert (mtx_key h) (locked w)\<rparr>))
    \<and> locked_by_me h (tracking_emplace h module line (w\<lparr>locked := insert (mtx_key h) (locked w)\<rparr>))"
proof -
  obtain module where m: "module_of cfg file = Some module"
    using module_of_defined by blast
  show ?thesis
    using assms locked_by_me_acquired [OF assms(1), of module line]
    by (simp add: lock_def m try_lock_def Let_def)
qed

lemma lock_wait_ends:
  assumes "\<exists>t\<in>set ticks. DeadlockTimeout cfg \<le> elapsed t"
  shows "fst (lock_wait cfg h module line info evs ticks after_loop w) \<noteq> Waiting"
proof -
  obtain r ev1 w1 where wl: "wait_loop cfg h module line info False ticks w = (r, ev1, w1)"
    by (cases "wait_loop cfg h module line info False ticks w") auto
  have "r \<noteq> Waiting"
    using wait_loop_ends [OF assms, of h module line info False w] by (simp add: wl)
  then show ?thesis
    unfolding lock_wait_def wl
    by (cases r) (auto simp: Let_def split: option.splits if_splits)
qed

lemma lock_ends:
  assumes "\<exists>t\<in>set ticks. DeadlockTimeout cfg \<le> elapsed t"
  shows "fst (lock cfg h file line ticks after_loop w) \<noteq> Waiting"
proof -
  obtain module where m: "module_of cfg file = Some module"
    using module_of_defined by blast
  have lw: "fst (lock_wait cfg h module line info evs ticks after_loop w) \<noteq> Waiting" for info evs
    using assms by (rule lock_wait_ends)
  show ?thesis
  proof (cases "find_node (mtx_key h) (tracking w)")
    case None
    then show ?thesis
      using lw by (simp add: lock_def m try_lock_def Let_def)
  next
    case (Some n)
    then show ?thesis
      using lw by (simp add: lock_def m Let_def)
  qed
qed

end
